theory Spec2Isabelle
  imports Main "HOL-Library.Sublist"
begin

section \<open>Python values, exceptions and built-ins used by the API client\<close>

text \<open>
  The client works on decoded JSON payloads. A payload is a value of type \<open>json\<close>:
  \<open>JDict kvs\<close> is the dict whose items, in insertion order, are \<open>kvs\<close> (a key is
  looked up with \<open>map_of\<close>). Numbers are integers (Python's unbounded \<open>int\<close>);
  fractional numbers are not part of the model. Strings are ASCII text.

  Every handler of the source is \<open>except Exception\<close>, so an exception is a value
  \<open>Raise e\<close> of the result type and a handler is a case distinction on it.
\<close>

datatype json =
    JNull
  | JBool bool
  | JInt int
  | JStr string
  | JList "json list"
  | JDict "(string \<times> json) list"

datatype exn = TypeError | AttributeError | KeyError | IndexError | ValueError | RequestException

datatype 'a res = Raise exn | Ok 'a

text \<open>Truth value of an object, as \<open>if x:\<close> and \<open>not x\<close> test it.\<close>

fun truthy :: "json \<Rightarrow> bool" where
  "truthy JNull = False"
| "truthy (JBool b) = b"
| "truthy (JInt n) = (n \<noteq> 0)"
| "truthy (JStr s) = (s \<noteq> [])"
| "truthy (JList xs) = (xs \<noteq> [])"
| "truthy (JDict kvs) = (kvs \<noteq> [])"

text \<open>\<open>obj.get(key, default)\<close>: only a dict has the method.\<close>

fun dict_get :: "json \<Rightarrow> string \<Rightarrow> json \<Rightarrow> json res" where
  "dict_get (JDict kvs) k dflt = Ok (case map_of kvs k of None \<Rightarrow> dflt | Some v \<Rightarrow> v)"
| "dict_get _ k dflt = Raise AttributeError"

text \<open>\<open>s.rstrip(sep)\<close> and \<open>s.split(sep)\<close> for a one-character separator.\<close>

definition rstrip_char :: "char \<Rightarrow> string \<Rightarrow> string" where
  "rstrip_char sep s = rev (dropWhile (\<lambda>c. c = sep) (rev s))"

fun split_char :: "char \<Rightarrow> string \<Rightarrow> string list" where
  "split_char sep [] = [[]]"
| "split_char sep (c # cs) =
     (if c = sep then [] # split_char sep cs
      else (case split_char sep cs of
              [] \<Rightarrow> [[c]]
            | w # ws \<Rightarrow> (c # w) # ws))"

text \<open>
  \<open>int(v)\<close>. An \<open>int\<close> converts to itself, a \<open>bool\<close> to 0 or 1, and a \<open>str\<close> is
  read as a decimal literal: surrounding whitespace is dropped, one sign is allowed,
  and single underscores may separate digits. Everything else raises. (CPython also
  refuses literals of more than 4300 digits; such a value is far outside every range
  the parser accepts, so the bound is left out.)
\<close>

definition is_space :: "char \<Rightarrow> bool" where
  "is_space c = ((9::nat) \<le> of_char c \<and> (of_char c :: nat) \<le> 13
                 \<or> (28::nat) \<le> of_char c \<and> (of_char c :: nat) \<le> 32)"

definition strip :: "string \<Rightarrow> string" where
  "strip s = rev (dropWhile is_space (rev (dropWhile is_space s)))"

definition is_digit :: "char \<Rightarrow> bool" where
  "is_digit c = ((48::nat) \<le> of_char c \<and> (of_char c :: nat) \<le> 57)"

definition digit_val :: "char \<Rightarrow> int" where
  "digit_val c = int (of_char c) - 48"

fun parse_digits :: "int \<Rightarrow> string \<Rightarrow> int option" where
  "parse_digits acc [] = Some acc"
| "parse_digits acc [c] = (if is_digit c then Some (10 * acc + digit_val c) else None)"
| "parse_digits acc (c # d # cs) =
     (if is_digit c then parse_digits (10 * acc + digit_val c) (d # cs)
      else if c = CHR ''_'' \<and> is_digit d then parse_digits (10 * acc + digit_val d) cs
      else None)"

definition int_of_str :: "string \<Rightarrow> int res" where
  "int_of_str s =
     (let t = strip s;
          neg = (case t of [] \<Rightarrow> False | c # _ \<Rightarrow> c = CHR ''-'');
          u = (case t of [] \<Rightarrow> [] | c # r \<Rightarrow> if c = CHR ''-'' \<or> c = CHR ''+'' then r else t)
      in case u of
           [] \<Rightarrow> Raise ValueError
         | c # cs \<Rightarrow>
             if is_digit c
             then (case parse_digits (digit_val c) cs of
                     None \<Rightarrow> Raise ValueError
                   | Some n \<Rightarrow> Ok (if neg then - n else n))
             else Raise ValueError)"

fun py_int :: "json \<Rightarrow> int res" where
  "py_int (JInt n) = Ok n"
| "py_int (JBool b) = Ok (if b then 1 else 0)"
| "py_int (JStr s) = int_of_str s"
| "py_int _ = Raise TypeError"

text \<open>The comprehension \<open>[int(v) for v in vals]\<close>: the first failure raises.\<close>

fun ints_of :: "json list \<Rightarrow> int list res" where
  "ints_of [] = Ok []"
| "ints_of (v # vs) =
     (case py_int v of
        Raise e \<Rightarrow> Raise e
      | Ok n \<Rightarrow> (case ints_of vs of Raise e \<Rightarrow> Raise e | Ok ns \<Rightarrow> Ok (n # ns)))"

section \<open>Calendar dates (\<open>datetime.date\<close>)\<close>

datatype pydate = Date (year: int) (month: int) (day: int)

definition is_leap :: "int \<Rightarrow> bool" where
  "is_leap y = (y mod 4 = 0 \<and> (y mod 100 \<noteq> 0 \<or> y mod 400 = 0))"

definition days_in_month :: "int \<Rightarrow> int \<Rightarrow> int" where
  "days_in_month y m =
     (if m = 2 then (if is_leap y then 29 else 28)
      else if m = 4 \<or> m = 6 \<or> m = 9 \<or> m = 11 then 30 else 31)"

definition valid_date :: "pydate \<Rightarrow> bool" where
  "valid_date dt = (1 \<le> year dt \<and> year dt \<le> 9999 \<and> 1 \<le> month dt \<and> month dt \<le> 12
                    \<and> 1 \<le> day dt \<and> day dt \<le> days_in_month (year dt) (month dt))"

text \<open>The constructor \<open>date(year, month, day)\<close> raises ValueError outside the calendar.\<close>

definition date :: "int \<Rightarrow> int \<Rightarrow> int \<Rightarrow> pydate res" where
  "date y m d = (if valid_date (Date y m d) then Ok (Date y m d) else Raise ValueError)"

section \<open>The event reference resolver\<close>

text \<open>The loop over the keys, left at the first truthy candidate; \<open>handle\<close> starts as None.\<close>

fun first_candidate :: "json \<Rightarrow> string list \<Rightarrow> json res" where
  "first_candidate event_ref [] = Ok JNull"
| "first_candidate event_ref (key # keys) =
     (case dict_get event_ref key JNull of
        Raise e \<Rightarrow> Raise e
      | Ok candidate \<Rightarrow>
          if truthy candidate then Ok candidate else first_candidate event_ref keys)"

definition last_segment :: "string \<Rightarrow> string" where
  "last_segment h = last (split_char (CHR ''/'') (rstrip_char (CHR ''/'') h))"

definition resolve_event_handle :: "json \<Rightarrow> string option res" where
  "resolve_event_handle event_ref =
     (if \<not> truthy event_ref then Ok None
      else case first_candidate event_ref [''ref'', ''handle'', ''hlink''] of
             Raise e \<Rightarrow> Raise e
           | Ok h \<Rightarrow>
               (case h of
                  JStr s \<Rightarrow>
                    if s = [] then Ok None
                    else if CHR ''/'' \<in> set s then Ok (Some (last_segment s))
                    else Ok (Some s)
                | _ \<Rightarrow> Ok None))"

section \<open>The date heuristic parser\<close>

definition combinations :: "(nat \<times> nat \<times> nat) list" where
  "combinations = [(2, 1, 0), (0, 1, 2), (0, 2, 1)]"

text \<open>
  The loop over the combinations. \<open>vals\<close> has three entries when the loop runs.
  The first combination that passes both range tests ends the loop, with the date
  or with the ValueError of the constructor.
\<close>

fun try_combinations :: "int list \<Rightarrow> (nat \<times> nat \<times> nat) list \<Rightarrow> pydate option res" where
  "try_combinations vals [] = Ok None"
| "try_combinations vals ((y_idx, m_idx, d_idx) # rest) =
     (let y = vals ! y_idx; m = vals ! m_idx; d = vals ! d_idx
      in if y < 100 then try_combinations vals rest
         else if \<not> (1 \<le> m \<and> m \<le> 12 \<and> 1 \<le> d \<and> d \<le> 31) then try_combinations vals rest
         else (case date y m d of Raise e \<Rightarrow> Raise e | Ok dt \<Rightarrow> Ok (Some dt)))"

definition parse_dateval :: "json \<Rightarrow> pydate option" where
  "parse_dateval dateval =
     (case dateval of
        JList xs \<Rightarrow>
          (let vals = take 3 xs
           in if length vals < 3 then None
              else (case ints_of vals of
                      Raise e \<Rightarrow> None
                    | Ok ns \<Rightarrow>
                        (case try_combinations ns combinations of
                           Raise e \<Rightarrow> None
                         | Ok r \<Rightarrow> r)))
      | _ \<Rightarrow> None)"


text \<open>The reading of the parser in the words of its contract: the plausibility test,
  the three orderings as (year, month, day) in their priority, and whether some
  ordering is plausible and names a calendar date.\<close>

definition plausible :: "int \<Rightarrow> int \<Rightarrow> int \<Rightarrow> bool" where
  "plausible y m d = (100 \<le> y \<and> 1 \<le> m \<and> m \<le> 12 \<and> 1 \<le> d \<and> d \<le> 31)"

definition orderings :: "int \<Rightarrow> int \<Rightarrow> int \<Rightarrow> (int \<times> int \<times> int) list" where
  "orderings a b c = [(c, b, a), (a, b, c), (a, c, b)]"


section \<open>Date arithmetic\<close>

text \<open>Comparison of dates, \<open>replace(year=...)\<close>, the proleptic Gregorian ordinal
  (subtraction of dates is the difference of ordinals) and \<open>isoformat()\<close>.\<close>

definition date_lt :: "pydate \<Rightarrow> pydate \<Rightarrow> bool" where
  "date_lt a b =
     (year a < year b
      \<or> year a = year b \<and> (month a < month b \<or> month a = month b \<and> day a < day b))"

definition replace_year :: "pydate \<Rightarrow> int \<Rightarrow> pydate res" where
  "replace_year dt y = date y (month dt) (day dt)"

definition days_before_year :: "int \<Rightarrow> int" where
  "days_before_year y = (y - 1) * 365 + (y - 1) div 4 - (y - 1) div 100 + (y - 1) div 400"

definition days_before_month :: "int \<Rightarrow> int \<Rightarrow> int" where
  "days_before_month y m =
     [0, 31, 59, 90, 120, 151, 181, 212, 243, 273, 304, 334] ! nat (m - 1)
     + (if 2 < m \<and> is_leap y then 1 else 0)"

definition toordinal :: "pydate \<Rightarrow> int" where
  "toordinal dt = days_before_year (year dt) + days_before_month (year dt) (month dt) + day dt"

definition digit_char :: "int \<Rightarrow> char" where
  "digit_char n = ''0123456789'' ! nat n"

definition pad2 :: "int \<Rightarrow> string" where
  "pad2 n = [digit_char (n div 10 mod 10), digit_char (n mod 10)]"

definition pad4 :: "int \<Rightarrow> string" where
  "pad4 n = [digit_char (n div 1000 mod 10), digit_char (n div 100 mod 10),
             digit_char (n div 10 mod 10), digit_char (n mod 10)]"

definition isoformat :: "pydate \<Rightarrow> string" where
  "isoformat dt = pad4 (year dt) @ ''-'' @ pad2 (month dt) @ ''-'' @ pad2 (day dt)"

section \<open>The birthday calculator\<close>

record birthday =
  person_name :: string
  birth_date :: string
  next_birthday :: string
  age :: int
  days_until :: int

text \<open>\<open>today\<close> is the value \<open>date.today()\<close> returns in the call.\<close>

definition calculate_next_birthday :: "pydate \<Rightarrow> pydate \<Rightarrow> string \<Rightarrow> birthday option" where
  "calculate_next_birthday today bd name =
     (let current_year = year today
      in case replace_year bd current_year of
           Raise e \<Rightarrow> None
         | Ok this_year_birthday \<Rightarrow>
             (case (if date_lt this_year_birthday today
                    then replace_year bd (current_year + 1)
                    else Ok this_year_birthday) of
                Raise e \<Rightarrow> None
              | Ok nb \<Rightarrow>
                  Some \<lparr>person_name = name,
                        birth_date = isoformat bd,
                        next_birthday = isoformat nb,
                        age = year nb - year bd,
                        days_until = toordinal nb - toordinal today\<rparr>))"

section \<open>The client and its environment\<close>

text \<open>
  What the client reads from outside: \<open>http_get\<close> is \<open>self._get(endpoint)\<close>, the
  decoded response or the exception of the request (authentication included);
  \<open>str_of\<close> is Python's \<open>str()\<close> on a value that is not a string;
  \<open>surname_filter\<close> is the stripped filter of the constructor; \<open>today_at i\<close> is the
  value of \<open>date.today()\<close> during iteration \<open>i\<close> of the main loop.
\<close>

record env =
  http_get :: "string \<Rightarrow> json res"
  str_of :: "json \<Rightarrow> string"
  surname_filter :: string
  today_at :: "nat \<Rightarrow> pydate"

definition py_str :: "env \<Rightarrow> json \<Rightarrow> string" where
  "py_str env v = (case v of JStr s \<Rightarrow> s | _ \<Rightarrow> str_of env v)"

definition lower_char :: "char \<Rightarrow> char" where
  "lower_char c = (if (65::nat) \<le> of_char c \<and> (of_char c :: nat) \<le> 90
                   then char_of (of_char c + (32::nat)) else c)"

definition py_lower :: "string \<Rightarrow> string" where
  "py_lower s = map lower_char s"

text \<open>\<open>sub in s\<close> on strings.\<close>

fun in_str :: "string \<Rightarrow> string \<Rightarrow> bool" where
  "in_str sub [] = (sub = [])"
| "in_str sub (c # cs) = (prefix sub (c # cs) \<or> in_str sub cs)"

text \<open>An operand of a comparison with an \<open>int\<close>; \<open>len(x)\<close>; \<open>x[n]\<close> for an integer
  \<open>n\<close> (the keys of a decoded JSON object are strings); \<open>for v in x\<close>; \<open>x == n\<close>.\<close>

fun num_of :: "json \<Rightarrow> int res" where
  "num_of (JInt n) = Ok n"
| "num_of (JBool b) = Ok (if b then 1 else 0)"
| "num_of _ = Raise TypeError"

fun py_len :: "json \<Rightarrow> int res" where
  "py_len (JList xs) = Ok (int (length xs))"
| "py_len (JStr s) = Ok (int (length s))"
| "py_len (JDict kvs) = Ok (int (length kvs))"
| "py_len _ = Raise TypeError"

fun py_getitem :: "json \<Rightarrow> int \<Rightarrow> json res" where
  "py_getitem (JList xs) n =
     (let k = (if n < 0 then n + int (length xs) else n)
      in if 0 \<le> k \<and> k < int (length xs) then Ok (xs ! nat k) else Raise IndexError)"
| "py_getitem (JStr s) n =
     (let k = (if n < 0 then n + int (length s) else n)
      in if 0 \<le> k \<and> k < int (length s) then Ok (JStr [s ! nat k]) else Raise IndexError)"
| "py_getitem (JDict kvs) n = Raise KeyError"
| "py_getitem _ n = Raise TypeError"

fun py_iter :: "json \<Rightarrow> json list res" where
  "py_iter (JList xs) = Ok xs"
| "py_iter (JStr s) = Ok (map (\<lambda>c. JStr [c]) s)"
| "py_iter (JDict kvs) = Ok (map (\<lambda>kv. JStr (fst kv)) kvs)"
| "py_iter _ = Raise TypeError"

fun eq_int :: "json \<Rightarrow> int \<Rightarrow> bool" where
  "eq_int (JInt k) n = (k = n)"
| "eq_int (JBool b) n = ((if b then 1 else 0) = n)"
| "eq_int _ n = False"

text \<open>\<open>i >= 0 and i < len(xs)\<close>, evaluated left to right.\<close>

definition index_valid :: "json \<Rightarrow> json \<Rightarrow> bool res" where
  "index_valid i xs =
     (case num_of i of
        Raise e \<Rightarrow> Raise e
      | Ok n \<Rightarrow>
          if 0 \<le> n
          then (case py_len xs of Raise e \<Rightarrow> Raise e | Ok l \<Rightarrow> Ok (n < l))
          else Ok False)"

section \<open>The person classifier\<close>

text \<open>\<open>type_string\<close> of \<open>_fetch_event_date\<close>, and the test \<open>"birth" in type_string.lower()\<close>
  (only a string has \<open>lower\<close>).\<close>

definition type_string :: "env \<Rightarrow> json \<Rightarrow> json res" where
  "type_string env event_data =
     (case dict_get event_data ''type'' (JDict []) of
        Raise e \<Rightarrow> Raise e
      | Ok event_type \<Rightarrow>
          (case event_type of
             JDict kvs \<Rightarrow> dict_get event_type ''string'' (JStr [])
           | _ \<Rightarrow> Ok (JStr (py_str env event_type))))"

definition is_birth_type :: "env \<Rightarrow> json \<Rightarrow> bool res" where
  "is_birth_type env event_data =
     (case type_string env event_data of
        Raise e \<Rightarrow> Raise e
      | Ok t \<Rightarrow>
          (case t of
             JStr s \<Rightarrow> Ok (in_str ''birth'' (py_lower s))
           | _ \<Rightarrow> Raise AttributeError))"

definition fetch_event_date :: "env \<Rightarrow> string \<Rightarrow> bool \<Rightarrow> pydate option" where
  "fetch_event_date env event_handle require_birth =
     (if event_handle = [] then None
      else
        let h = (if CHR ''/'' \<in> set event_handle then last_segment event_handle
                 else event_handle)
        in case http_get env (''events/'' @ h) of
             Raise e \<Rightarrow> None
           | Ok event_data \<Rightarrow>
               (case (if require_birth then is_birth_type env event_data else Ok True) of
                  Raise e \<Rightarrow> None
                | Ok birth \<Rightarrow>
                    if \<not> birth then None
                    else (case dict_get event_data ''date'' (JDict []) of
                            Raise e \<Rightarrow> None
                          | Ok date_info \<Rightarrow>
                              (case dict_get date_info ''dateval'' (JList []) of
                                 Raise e \<Rightarrow> None
                               | Ok dv \<Rightarrow> parse_dateval dv))))"

text \<open>
  \<open>_has_birth_date\<close> and \<open>_extract_birth_date\<close> run the same statements; they differ
  in \<open>require_birth\<close> and in what they return. \<open>try_reference\<close> is the resolution and
  fetch of one reference, \<open>scan_events\<close> the loop over the list, \<open>search_events\<close> the
  body of the outer \<open>try\<close>. Resolving a reference is not inside the inner \<open>try\<close>: an
  exception there leaves the function through the outer handler.
\<close>

definition try_reference :: "env \<Rightarrow> bool \<Rightarrow> json \<Rightarrow> pydate option res" where
  "try_reference env require_birth event_ref =
     (case resolve_event_handle event_ref of
        Raise e \<Rightarrow> Raise e
      | Ok None \<Rightarrow> Ok None
      | Ok (Some h) \<Rightarrow>
          if h = [] then Ok None else Ok (fetch_event_date env h require_birth))"

fun scan_events :: "env \<Rightarrow> bool \<Rightarrow> json list \<Rightarrow> pydate option res" where
  "scan_events env require_birth [] = Ok None"
| "scan_events env require_birth (event_ref # rest) =
     (case try_reference env require_birth event_ref of
        Raise e \<Rightarrow> Raise e
      | Ok None \<Rightarrow> scan_events env require_birth rest
      | Ok (Some d) \<Rightarrow> Ok (Some d))"

definition search_events :: "env \<Rightarrow> bool \<Rightarrow> json \<Rightarrow> pydate option res" where
  "search_events env require_birth person =
     (case dict_get person ''birth_ref_index'' (JInt (- 1)) of
        Raise e \<Rightarrow> Raise e
      | Ok birth_ref_index \<Rightarrow>
     (case dict_get person ''event_ref_list'' (JList []) of
        Raise e \<Rightarrow> Raise e
      | Ok event_ref_list \<Rightarrow>
     (case index_valid birth_ref_index event_ref_list of
        Raise e \<Rightarrow> Raise e
      | Ok valid \<Rightarrow>
     (case (if valid
            then (case num_of birth_ref_index of
                    Raise e \<Rightarrow> Raise e
                  | Ok n \<Rightarrow>
                      (case py_getitem event_ref_list n of
                         Raise e \<Rightarrow> Raise e
                       | Ok event_ref \<Rightarrow> try_reference env require_birth event_ref))
            else Ok None) of
        Raise e \<Rightarrow> Raise e
      | Ok (Some d) \<Rightarrow> Ok (Some d)
      | Ok None \<Rightarrow>
          (case py_iter event_ref_list of
             Raise e \<Rightarrow> Raise e
           | Ok refs \<Rightarrow> scan_events env require_birth refs)))))"

definition has_birth_date :: "env \<Rightarrow> json \<Rightarrow> bool" where
  "has_birth_date env person =
     (case search_events env False person of
        Raise e \<Rightarrow> False
      | Ok None \<Rightarrow> False
      | Ok (Some d) \<Rightarrow> True)"

definition extract_birth_date :: "env \<Rightarrow> json \<Rightarrow> pydate option" where
  "extract_birth_date env person =
     (case search_events env True person of
        Raise e \<Rightarrow> None
      | Ok r \<Rightarrow> r)"

definition is_person_alive :: "json \<Rightarrow> bool" where
  "is_person_alive person =
     (case dict_get person ''death_ref_index'' (JInt (- 1)) of
        Raise e \<Rightarrow> True
      | Ok death_ref_index \<Rightarrow> eq_int death_ref_index (- 1))"

definition get_person_name :: "env \<Rightarrow> json \<Rightarrow> string" where
  "get_person_name env person =
     (case dict_get person ''primary_name'' (JDict []) of
        Raise e \<Rightarrow> ''Unknown''
      | Ok primary_name \<Rightarrow>
     (case dict_get primary_name ''first_name'' (JStr []) of
        Raise e \<Rightarrow> ''Unknown''
      | Ok first_name \<Rightarrow>
     (case dict_get primary_name ''surname_list'' (JList []) of
        Raise e \<Rightarrow> ''Unknown''
      | Ok surname_list \<Rightarrow>
     (case (if truthy surname_list
            then (case py_getitem surname_list 0 of
                    Raise e \<Rightarrow> Raise e
                  | Ok s0 \<Rightarrow> dict_get s0 ''surname'' (JStr []))
            else Ok (JStr [])) of
        Raise e \<Rightarrow> ''Unknown''
      | Ok surname \<Rightarrow>
          (let full_name = strip (py_str env first_name @ '' '' @ py_str env surname)
           in if full_name \<noteq> [] then full_name else ''Unknown'')))))"


section \<open>The birthday pipeline\<close>

definition get_people :: "env \<Rightarrow> json res" where
  "get_people env = http_get env ''people/''"

text \<open>
  The diagnostics loop. Its counters and its sampled event are only logged, but its
  statements can raise, which ends \<open>get_birthdays\<close> in the outer handler. \<open>sampled\<close>
  says that \<open>sampled_event_type\<close> is no longer None; the request for the sampled
  event sits in a \<open>try\<close> of its own and sets the sample either way.
\<close>

fun diagnostics :: "bool \<Rightarrow> json list \<Rightarrow> unit res" where
  "diagnostics sampled [] = Ok ()"
| "diagnostics sampled (person # rest) =
     (case dict_get person ''event_ref_list'' (JList []) of
        Raise e \<Rightarrow> Raise e
      | Ok v \<Rightarrow>
          (let event_ref_list = (if truthy v then v else JList [])
           in case (if truthy event_ref_list \<and> \<not> sampled
                    then (case py_getitem event_ref_list 0 of
                            Raise e \<Rightarrow> Raise e
                          | Ok first_ref \<Rightarrow>
                              (case resolve_event_handle first_ref of
                                 Raise e \<Rightarrow> Raise e
                               | Ok None \<Rightarrow> Ok False
                               | Ok (Some h) \<Rightarrow> Ok (h \<noteq> [])))
                    else Ok sampled) of
                Raise e \<Rightarrow> Raise e
              | Ok sampled' \<Rightarrow>
                  (case dict_get person ''birth_ref_index'' (JInt (- 1)) of
                     Raise e \<Rightarrow> Raise e
                   | Ok bri \<Rightarrow>
                       (case index_valid bri event_ref_list of
                          Raise e \<Rightarrow> Raise e
                        | Ok valid \<Rightarrow> diagnostics sampled' rest))))"

text \<open>The arguments of the debug messages about the first retained person.\<close>

definition sample_debug :: "json \<Rightarrow> unit res" where
  "sample_debug sample =
     (case dict_get sample ''birth_ref_index'' JNull of
        Raise e \<Rightarrow> Raise e
      | Ok bri \<Rightarrow>
     (case dict_get sample ''event_ref_list'' (JList []) of
        Raise e \<Rightarrow> Raise e
      | Ok erl \<Rightarrow>
     (case py_len erl of
        Raise e \<Rightarrow> Raise e
      | Ok l \<Rightarrow>
     (case dict_get sample ''event_ref_list'' JNull of
        Raise e \<Rightarrow> Raise e
      | Ok erl' \<Rightarrow>
          if truthy erl'
          then (case py_getitem erl' 0 of Raise e \<Rightarrow> Raise e | Ok first_ref \<Rightarrow> Ok ())
          else Ok ()))))"

text \<open>The search for one person by name, left at the first match.\<close>

fun name_search :: "env \<Rightarrow> json list \<Rightarrow> unit res" where
  "name_search env [] = Ok ()"
| "name_search env (p # rest) =
     (let pname = get_person_name env p
      in if in_str ''erdal'' (py_lower pname) \<and> in_str ''akkaya'' (py_lower pname)
         then (case dict_get p ''birth_ref_index'' JNull of
                 Raise e \<Rightarrow> Raise e
               | Ok b \<Rightarrow>
                   (case dict_get p ''death_ref_index'' JNull of
                      Raise e \<Rightarrow> Raise e
                    | Ok d \<Rightarrow>
                        (case dict_get p ''event_ref_list'' JNull of
                           Raise e \<Rightarrow> Raise e
                         | Ok l \<Rightarrow> Ok ())))
         else name_search env rest)"

text \<open>One pass of the main loop: None where the source continues without appending.\<close>

definition birthday_entry :: "env \<Rightarrow> pydate \<Rightarrow> json \<Rightarrow> birthday option" where
  "birthday_entry env today person =
     (let name = get_person_name env person
      in if surname_filter env \<noteq> []
            \<and> \<not> in_str (py_lower (surname_filter env)) (py_lower name)
         then None
         else (case extract_birth_date env person of
                 None \<Rightarrow> None
               | Some bd \<Rightarrow>
                   if \<not> is_person_alive person then None
                   else calculate_next_birthday today bd name))"

fun collect_birthdays :: "env \<Rightarrow> nat \<Rightarrow> json list \<Rightarrow> birthday list \<Rightarrow> birthday list" where
  "collect_birthdays env i [] birthdays = birthdays"
| "collect_birthdays env i (person # rest) birthdays =
     (case birthday_entry env (today_at env i) person of
        None \<Rightarrow> collect_birthdays env (Suc i) rest birthdays
      | Some info \<Rightarrow> collect_birthdays env (Suc i) rest (birthdays @ [info]))"

text \<open>The slice \<open>xs[:limit]\<close>; a negative bound counts from the end.\<close>

definition slice_to :: "'a list \<Rightarrow> int \<Rightarrow> 'a list" where
  "slice_to xs limit =
     (if 0 \<le> limit then take (nat limit) xs
      else take (length xs - nat (- limit)) xs)"

text \<open>
  \<open>list.sort(key=...)\<close> is a stable sort, and so is \<open>sort_key\<close>: both give the one
  list that is ordered by the key and keeps equal keys in their order.
\<close>

definition get_birthdays_body :: "env \<Rightarrow> int \<Rightarrow> birthday list res" where
  "get_birthdays_body env limit =
     (case get_people env of
        Raise e \<Rightarrow> Ok []
      | Ok all_people \<Rightarrow>
          if \<not> truthy all_people then Ok []
          else (case py_iter all_people of
                  Raise e \<Rightarrow> Raise e
                | Ok people \<Rightarrow>
                    (case diagnostics False people of
                       Raise e \<Rightarrow> Raise e
                     | Ok u \<Rightarrow>
                         (case filter (has_birth_date env) people of
                            [] \<Rightarrow> Ok []
                          | sample # others \<Rightarrow>
                              (case sample_debug sample of
                                 Raise e \<Rightarrow> Raise e
                               | Ok u \<Rightarrow>
                                   (case name_search env (sample # others) of
                                      Raise e \<Rightarrow> Raise e
                                    | Ok u \<Rightarrow>
                                        Ok (slice_to
                                              (sort_key days_until
                                                 (collect_birthdays env 0 (sample # others) []))
                                              limit)))))))"

definition get_birthdays :: "env \<Rightarrow> int \<Rightarrow> birthday list" where
  "get_birthdays env limit =
     (case get_birthdays_body env limit of Raise e \<Rightarrow> [] | Ok r \<Rightarrow> r)"

definition default_limit :: int where
  "default_limit = 50"

section \<open>The classifier in the words of its contract\<close>

text \<open>
  A person record is a dict whose \<open>event_ref_list\<close>, when present, is a list of
  mappings, and whose \<open>birth_ref_index\<close>, when present, is an integer.
\<close>

definition is_mapping :: "json \<Rightarrow> bool" where
  "is_mapping v = (case v of JDict kvs \<Rightarrow> True | _ \<Rightarrow> False)"











text \<open>The number of days of a year; the year of the next occurrence of a birthday and
  that occurrence, in the words of the calculator's contract.\<close>

definition year_days :: "int \<Rightarrow> int" where
  "year_days y = (if is_leap y then 366 else 365)"

definition target_year :: "pydate \<Rightarrow> pydate \<Rightarrow> int" where
  "target_year today bd =
     (if date_lt (Date (year today) (month bd) (day bd)) today then year today + 1
      else year today)"

definition occurrence :: "pydate \<Rightarrow> pydate \<Rightarrow> pydate" where
  "occurrence today bd = Date (target_year today bd) (month bd) (day bd)"

section \<open>A sample upstream\<close>

text \<open>
  Three people and four events, for the concrete instances below. Bob's first
  reference is a marriage with a parseable date, his second his birth; Cyd has a
  death reference; the date is 2024-07-01 throughout. The other environments answer
  every request with an exception, with null, or with an empty list.
\<close>

definition demo_event :: "string \<Rightarrow> int \<Rightarrow> int \<Rightarrow> int \<Rightarrow> json" where
  "demo_event label a b c =
     JDict [(''type'', JDict [(''string'', JStr label)]),
            (''date'', JDict [(''dateval'', JList [JInt a, JInt b, JInt c, JBool False])])]"

definition demo_person :: "string \<Rightarrow> string \<Rightarrow> json list \<Rightarrow> int \<Rightarrow> int \<Rightarrow> json" where
  "demo_person first_name surname refs birth_ref death_ref =
     JDict [(''primary_name'',
               JDict [(''first_name'', JStr first_name),
                      (''surname_list'', JList [JDict [(''surname'', JStr surname)]])]),
            (''event_ref_list'', JList refs),
            (''birth_ref_index'', JInt birth_ref),
            (''death_ref_index'', JInt death_ref)]"

definition demo_ref :: "string \<Rightarrow> json" where
  "demo_ref h = JDict [(''ref'', JStr h)]"

definition ann :: json where
  "ann = demo_person ''Ann'' ''Lee'' [demo_ref ''E1''] 0 (- 1)"

definition bob :: json where
  "bob = demo_person ''Bob'' ''Ray'' [demo_ref ''E4'', demo_ref ''E2''] 0 (- 1)"

definition cyd :: json where
  "cyd = demo_person ''Cyd'' ''Old'' [demo_ref ''E3''] 0 3"

definition demo_get :: "string \<Rightarrow> json res" where
  "demo_get endpoint =
     (if endpoint = ''people/'' then Ok (JList [bob, cyd, ann])
      else if endpoint = ''events/E1'' then Ok (demo_event ''Birth'' 10 7 1990)
      else if endpoint = ''events/E2'' then Ok (demo_event ''birth'' 1985 3 2)
      else if endpoint = ''events/E3'' then Ok (demo_event ''Birth'' 1 1 1900)
      else if endpoint = ''events/E4'' then Ok (demo_event ''Marriage'' 5 5 2010)
      else Raise RequestException)"

definition demo_env :: env where
  "demo_env = \<lparr>http_get = demo_get, str_of = (\<lambda>v. ''?''), surname_filter = [],
               today_at = (\<lambda>i. Date 2024 7 1)\<rparr>"

definition down_env :: env where
  "down_env = demo_env\<lparr>http_get := (\<lambda>endpoint. Raise RequestException)\<rparr>"

definition null_env :: env where
  "null_env = demo_env\<lparr>http_get := (\<lambda>endpoint. Ok JNull)\<rparr>"

definition empty_env :: env where
  "empty_env = demo_env\<lparr>http_get := (\<lambda>endpoint. Ok (JList []))\<rparr>"

section \<open>Properties of the resolver\<close>

lemma split_char_nonempty: "split_char sep s \<noteq> []"
  by (induction s) (auto split: list.splits)

lemma split_char_length: "length (split_char sep s) = Suc (length (filter (\<lambda>c. c = sep) s))"
  by (induction s) (auto split: list.splits)

lemma last_split_char: "last (split_char sep s) = rev (takeWhile (\<lambda>c. c \<noteq> sep) (rev s))"
proof (induction s)
  case Nil
  then show ?case by simp
next
  case (Cons c cs)
  show ?case
  proof (cases "sep \<in> set cs")
    case True
    then have "takeWhile (\<lambda>c. c \<noteq> sep) (rev cs @ [c]) = takeWhile (\<lambda>c. c \<noteq> sep) (rev cs)"
      by (simp add: takeWhile_append1)
    moreover have "filter (\<lambda>c. c = sep) cs \<noteq> []"
      using True by (simp add: filter_empty_conv)
    then have "2 \<le> length (split_char sep cs)"
      by (cases "filter (\<lambda>c. c = sep) cs") (simp_all add: split_char_length)
    then obtain w v ws where "split_char sep cs = w # v # ws"
      by (cases "split_char sep cs"; cases "tl (split_char sep cs)") auto
    ultimately show ?thesis
      using Cons by simp
  next
    case False
    then have all: "takeWhile (\<lambda>c. c \<noteq> sep) (rev cs) = rev cs"
      by (auto simp: takeWhile_eq_all_conv)
    with Cons have l: "last (split_char sep cs) = cs" by simp
    have t: "takeWhile (\<lambda>c. c \<noteq> sep) (rev cs @ [c]) = rev cs @ (if c \<noteq> sep then [c] else [])"
      using False by (subst takeWhile_append2) auto
    have one: "length (split_char sep cs) = 1"
      using False by (induction cs) (auto split: list.splits)
    then obtain w where w: "split_char sep cs = [w]"
      by (cases "split_char sep cs") auto
    with l have "w = cs" by simp
    with w t show ?thesis by simp
  qed
qed

lemma last_segment_no_sep: "CHR ''/'' \<notin> set (last_segment s)"
  unfolding last_segment_def last_split_char
  using set_takeWhileD by fastforce

lemma last_segment_suffix:
  "\<exists>pre. rstrip_char (CHR ''/'') s = pre @ last_segment s \<and> (pre = [] \<or> last pre = CHR ''/'')"
proof -
  let ?t = "rev (rstrip_char (CHR ''/'') s)"
  let ?P = "\<lambda>c. c \<noteq> CHR ''/''"
  have eq: "rev ?t = rev (dropWhile ?P ?t) @ rev (takeWhile ?P ?t)"
    by (metis rev_append takeWhile_dropWhile_id)
  have "dropWhile ?P ?t = [] \<or> hd (dropWhile ?P ?t) = CHR ''/''"
    using hd_dropWhile [of ?P ?t] by auto
  then have "rev (dropWhile ?P ?t) = [] \<or> last (rev (dropWhile ?P ?t)) = CHR ''/''"
    by (auto simp: last_rev)
  with eq show ?thesis
    unfolding last_segment_def last_split_char by (metis rev_rev_ident)
qed

lemma first_candidate_dict:
  "first_candidate (JDict kvs) keys =
     Ok (case find truthy (List.map_filter (map_of kvs) keys) of None \<Rightarrow> JNull | Some v \<Rightarrow> v)"
  by (induction keys) (simp_all add: List.map_filter_simps split: option.splits)

lemma find_truthy: "find truthy vs = Some v \<Longrightarrow> truthy v"
  by (induction vs) (auto split: if_splits)

lemma resolve_dict:
  "resolve_event_handle (JDict kvs) =
       Ok (case find truthy (List.map_filter (map_of kvs) [''ref'', ''handle'', ''hlink'']) of
             None \<Rightarrow> None
           | Some v \<Rightarrow> (case v of
                JStr h \<Rightarrow> Some (if CHR ''/'' \<in> set h then last_segment h else h)
              | _ \<Rightarrow> None))"
proof (cases "kvs = []")
  case True
  then show ?thesis by (simp add: resolve_event_handle_def List.map_filter_simps)
next
  case False
  show ?thesis
  proof (cases "find truthy (List.map_filter (map_of kvs) [''ref'', ''handle'', ''hlink''])")
    case None
    with False show ?thesis
      by (simp add: resolve_event_handle_def first_candidate_dict del: first_candidate.simps)
  next
    case (Some v)
    then have "truthy v" by (rule find_truthy)
    with False Some show ?thesis
      by (cases v) (simp_all add: resolve_event_handle_def first_candidate_dict del: first_candidate.simps)
  qed
qed

section \<open>Properties of the parser\<close>


lemma try_combinations_three:
  "try_combinations [a, b, c] combinations =
     (if plausible c b a then (case date c b a of Raise e \<Rightarrow> Raise e | Ok dt \<Rightarrow> Ok (Some dt))
      else if plausible a b c then (case date a b c of Raise e \<Rightarrow> Raise e | Ok dt \<Rightarrow> Ok (Some dt))
      else if plausible a c b then (case date a c b of Raise e \<Rightarrow> Raise e | Ok dt \<Rightarrow> Ok (Some dt))
      else Ok None)"
  by (simp add: combinations_def plausible_def Let_def)









section \<open>Properties of the calendar\<close>

lemma div_step:
  fixes k y :: int
  assumes "0 < k"
  shows "y div k = (y - 1) div k + (if y mod k = 0 then 1 else 0)"
proof (cases "y mod k = 0")
  case True
  have "y - 1 = k * (y div k - 1) + (k - 1)"
    using True mult_div_mod_eq [of k y] by (simp add: algebra_simps)
  then have "(y - 1) div k = y div k - 1"
    by (rule int_div_pos_eq) (use assms in simp_all)
  with True show ?thesis by simp
next
  case False
  have "0 \<le> y mod k" "y mod k < k"
    using assms by simp_all
  with False have r: "0 \<le> y mod k - 1" "y mod k - 1 < k" by linarith+
  have "y - 1 = k * (y div k) + (y mod k - 1)"
    using mult_div_mod_eq [of k y] by simp
  then have "(y - 1) div k = y div k"
    using r by (rule int_div_pos_eq)
  with False show ?thesis by simp
qed

lemma year_length: "days_before_year (y + 1) = days_before_year y + (if is_leap y then 366 else 365)"
proof -
  define c4 c100 c400 where "c4 = (y mod 4 = 0)" and "c100 = (y mod 100 = 0)" and "c400 = (y mod 400 = 0)"
  have "y mod 400 mod 100 = y mod 100" "y mod 100 mod 4 = y mod 4"
    by (simp_all add: mod_mod_cancel)
  then have m: "c400 \<Longrightarrow> c100" "c100 \<Longrightarrow> c4"
    by (auto simp: c4_def c100_def c400_def)
  define p4 p100 p400 where "p4 = (y - 1) div 4" and "p100 = (y - 1) div 100" and "p400 = (y - 1) div 400"
  define q4 q100 q400 where "q4 = y div 4" and "q100 = y div 100" and "q400 = y div 400"
  have e: "q4 = p4 + (if c4 then 1 else 0)"
          "q100 = p100 + (if c100 then 1 else 0)"
          "q400 = p400 + (if c400 then 1 else 0)"
    unfolding p4_def p100_def p400_def q4_def q100_def q400_def c4_def c100_def c400_def
    by (rule div_step, simp)+
  have a: "days_before_year (y + 1) = y * 365 + q4 - q100 + q400"
    by (simp add: days_before_year_def q4_def q100_def q400_def)
  have b: "days_before_year y = (y - 1) * 365 + p4 - p100 + p400"
    by (simp add: days_before_year_def p4_def p100_def p400_def)
  have l: "is_leap y = (c4 \<and> (\<not> c100 \<or> c400))"
    by (simp add: is_leap_def c4_def c100_def c400_def)
  show ?thesis
    unfolding a b e l using m by (cases c4; cases c100; cases c400) (simp_all add: algebra_simps)
qed

lemma days_before_year_mono: "a \<le> b \<Longrightarrow> days_before_year a \<le> days_before_year b"
proof (induction b rule: int_ge_induct)
  case base
  show ?case by simp
next
  case (step i)
  then show ?case using year_length [of i] by (simp split: if_splits)
qed


lemma month_cases:
  "1 \<le> m \<Longrightarrow> m \<le> 12 \<Longrightarrow>
   m = 1 \<or> m = 2 \<or> m = 3 \<or> m = 4 \<or> m = 5 \<or> m = 6 \<or> m = 7 \<or> m = 8 \<or> m = 9 \<or> m = 10 \<or> m = 11 \<or> m = (12::int)"
  by arith

lemma month_end:
  "1 \<le> m \<Longrightarrow> m \<le> 12 \<Longrightarrow>
   days_before_month y m + days_in_month y m =
     (if m = 12 then year_days y else days_before_month y (m + 1))"
  using month_cases [of m] by (auto simp: days_before_month_def days_in_month_def year_days_def)

lemma days_in_month_pos: "0 < days_in_month y m"
  by (simp add: days_in_month_def)

lemma days_before_month_mono:
  "m \<le> n \<Longrightarrow> 1 \<le> m \<Longrightarrow> n \<le> 12 \<Longrightarrow> days_before_month y m \<le> days_before_month y n"
proof (induction n rule: int_ge_induct)
  case base
  show ?case by simp
next
  case (step i)
  then show ?case
    using month_end [of i y] days_in_month_pos [of y i] by (simp split: if_splits)
qed

lemma days_before_month_nonneg: "1 \<le> m \<Longrightarrow> m \<le> 12 \<Longrightarrow> 0 \<le> days_before_month y m"
  using days_before_month_mono [of 1 m y] by (simp add: days_before_month_def)

lemma day_of_year_le:
  assumes "valid_date (Date y m d)"
  shows "days_before_month y m + d \<le> year_days y"
proof -
  from assms have v: "1 \<le> m" "m \<le> 12" "d \<le> days_in_month y m"
    by (simp_all add: valid_date_def)
  have "days_before_month y m + days_in_month y m \<le> year_days y"
  proof (cases "m = 12")
    case True
    then show ?thesis using month_end [of m y] by simp
  next
    case False
    with v have "m + 1 \<le> 12" by simp
    then have "days_before_month y (m + 1) \<le> days_before_month y 12"
      using v by (intro days_before_month_mono) simp_all
    moreover have "days_before_month y 12 + days_in_month y 12 = year_days y"
      using month_end [of 12 y] by simp
    ultimately show ?thesis
      using False month_end [of m y] v days_in_month_pos [of y 12] by simp
  qed
  with v show ?thesis by simp
qed

lemma toordinal_mono:
  assumes a: "valid_date a" and b: "valid_date b" and lt: "date_lt a b"
  shows "toordinal a < toordinal b"
proof -
  obtain ya ma da where A: "a = Date ya ma da" by (cases a)
  obtain yb mb db where B: "b = Date yb mb db" by (cases b)
  from a b have va: "1 \<le> ma" "ma \<le> 12" "1 \<le> da" "da \<le> days_in_month ya ma"
    and vb: "1 \<le> mb" "mb \<le> 12" "1 \<le> db" "db \<le> days_in_month yb mb"
    by (simp_all add: valid_date_def A B)
  consider "ya < yb" | "ya = yb" "ma < mb" | "ya = yb" "ma = mb" "da < db"
    using lt by (auto simp: date_lt_def A B)
  then show ?thesis
  proof cases
    case 1
    have "toordinal a \<le> days_before_year ya + year_days ya"
      using day_of_year_le [of ya ma da] a by (simp add: toordinal_def A)
    also have "\<dots> = days_before_year (ya + 1)"
      by (simp add: year_length year_days_def)
    also have "\<dots> \<le> days_before_year yb"
      using 1 by (intro days_before_year_mono) simp
    also have "\<dots> < toordinal b"
      using days_before_month_nonneg [of mb yb] vb by (simp add: toordinal_def B)
    finally show ?thesis .
  next
    case 2
    then have "ma + 1 \<le> mb" by simp
    then have "days_before_month ya (ma + 1) \<le> days_before_month ya mb"
      using va vb by (intro days_before_month_mono) simp_all
    moreover have "days_before_month ya ma + da \<le> days_before_month ya (ma + 1)"
      using month_end [of ma ya] va 2 vb by (simp split: if_splits)
    ultimately show ?thesis
      using 2 vb by (simp add: toordinal_def A B)
  next
    case 3
    then show ?thesis by (simp add: toordinal_def A B)
  qed
qed

lemma date_lt_trichotomy: "date_lt a b \<or> a = b \<or> date_lt b a"
  by (cases a; cases b) (auto simp: date_lt_def)

lemma toordinal_eq_iff:
  assumes "valid_date a" "valid_date b"
  shows "toordinal a = toordinal b \<longleftrightarrow> a = b"
  using assms toordinal_mono [of a b] toordinal_mono [of b a] date_lt_trichotomy [of a b]
  by auto

section \<open>Evaluation rules for concrete inputs\<close>

lemmas date_eval = date_def valid_date_def days_in_month_def is_leap_def

lemmas ord_eval = toordinal_def days_before_year_def days_before_month_def

lemmas iso_eval = isoformat_def pad2_def pad4_def digit_char_def

section \<open>Properties of the calculator\<close>

lemma calculate_some_iff:
  "calculate_next_birthday today bd name = Some r \<longleftrightarrow>
     valid_date (Date (year today) (month bd) (day bd)) \<and> valid_date (occurrence today bd)
     \<and> r = \<lparr>person_name = name, birth_date = isoformat bd,
             next_birthday = isoformat (occurrence today bd),
             age = target_year today bd - year bd,
             days_until = toordinal (occurrence today bd) - toordinal today\<rparr>"
  by (auto simp: calculate_next_birthday_def replace_year_def date_def occurrence_def target_year_def Let_def)

lemma calculate_none_iff:
  "calculate_next_birthday today bd name = None \<longleftrightarrow>
     \<not> (valid_date (Date (year today) (month bd) (day bd)) \<and> valid_date (occurrence today bd))"
  by (auto simp: calculate_next_birthday_def replace_year_def date_def occurrence_def target_year_def Let_def)

lemma occurrence_not_before:
  "\<not> date_lt (occurrence today bd) today"
  by (cases today) (auto simp: occurrence_def target_year_def date_lt_def)

lemma occurrence_is_today:
  "occurrence today bd = today \<longleftrightarrow> month today = month bd \<and> day today = day bd"
  by (cases today) (auto simp: occurrence_def target_year_def date_lt_def)

lemma ordinary_day_valid:
  assumes "valid_date bd" "month bd \<noteq> 2 \<or> day bd \<noteq> 29" "1 \<le> y" "y \<le> 9999"
  shows "valid_date (Date y (month bd) (day bd))"
  using assms by (auto simp: valid_date_def days_in_month_def split: if_splits)

section \<open>The claims about the leaf components\<close>

text \<open>
  C9. On a mapping the resolver looks at \<open>ref\<close>, \<open>handle\<close>, \<open>hlink\<close> in this order and
  takes the first value that is present and not empty. A value that is not a string
  gives None, and so do an absent reference and an empty mapping. A string without
  \<open>/\<close> is the handle itself; otherwise the handle is the last segment of the string
  with its trailing separators removed: it contains no separator, and the stripped
  string ends with it, right after a separator or as a whole.
\<close>

theorem resolve_event_handle_contract:
  "resolve_event_handle JNull = Ok None
   \<and> resolve_event_handle (JDict kvs) =
       Ok (case find truthy (List.map_filter (map_of kvs) [''ref'', ''handle'', ''hlink'']) of
             None \<Rightarrow> None
           | Some v \<Rightarrow> (case v of
                JStr h \<Rightarrow> Some (if CHR ''/'' \<in> set h then last_segment h else h)
              | _ \<Rightarrow> None))
   \<and> CHR ''/'' \<notin> set (last_segment s)
   \<and> (\<exists>pre. rstrip_char (CHR ''/'') s = pre @ last_segment s \<and> (pre = [] \<or> last pre = CHR ''/''))"
proof -
  have "resolve_event_handle JNull = Ok None"
    by (simp add: resolve_event_handle_def)
  with resolve_dict [of kvs] last_segment_no_sep [of s] last_segment_suffix [of s]
  show ?thesis by blast
qed

theorem resolve_event_handle_contract_witness:
  "resolve_event_handle (JDict [(''hlink'', JStr ''H3''), (''handle'', JStr ''/api/events/H2//''), (''ref'', JStr '''')])
     = Ok (Some ''H2'')
   \<and> resolve_event_handle (JDict [(''ref'', JInt 7), (''handle'', JStr ''H2'')]) = Ok None
   \<and> resolve_event_handle (JDict []) = Ok None"
  using resolve_event_handle_contract [of "[(''hlink'', JStr ''H3''), (''handle'', JStr ''/api/events/H2//''), (''ref'', JStr '''')]" "[]"]
    resolve_event_handle_contract [of "[(''ref'', JInt 7), (''handle'', JStr ''H2'')]" "[]"]
    resolve_event_handle_contract [of "[]" "[]"]
  by (simp add: List.map_filter_simps last_segment_def rstrip_char_def)

text \<open>
  C2. On a triple of integers the parser takes the orderings (day, month, year),
  (year, month, day), (year, day, month) in this priority, and its result is the
  calendar date of the first ordering with year at least 100, month in 1..12 and day
  in 1..31. No later ordering is looked at, also when the constructor of the date
  refuses the values of that first ordering.
\<close>

theorem parse_dateval_priority:
  "parse_dateval (JList (JInt a # JInt b # JInt c # rest)) =
     (case find (\<lambda>(y, m, d). plausible y m d) (orderings a b c) of
        None \<Rightarrow> None
      | Some (y, m, d) \<Rightarrow> (case date y m d of Raise e \<Rightarrow> None | Ok dt \<Rightarrow> Some dt))"
  by (simp add: parse_dateval_def try_combinations_three orderings_def split: res.splits)

theorem parse_dateval_priority_witness:
  "parse_dateval (JList [JInt 1, JInt 2, JInt 2003]) = Some (Date 2003 2 1)
   \<and> parse_dateval (JList [JInt 2003, JInt 2, JInt 1]) = Some (Date 2003 2 1)
   \<and> parse_dateval (JList [JInt 2003, JInt 20, JInt 1]) = Some (Date 2003 1 20)
   \<and> parse_dateval (JList [JInt 31, JInt 4, JInt 2003]) = None"
  using parse_dateval_priority [of 1 2 2003 "[]"] parse_dateval_priority [of 2003 2 1 "[]"]
    parse_dateval_priority [of 2003 20 1 "[]"] parse_dateval_priority [of 31 4 2003 "[]"]
  by (simp add: orderings_def plausible_def date_eval)




text \<open>
  C5. A person is alive exactly when the record has no \<open>death_ref_index\<close> or carries
  the value -1 there; every other value, 0 included, means deceased. The result does
  not depend on the event references of the record, and no event is fetched. On a
  person that is not a mapping the lookup raises, and the answer is True.
\<close>

theorem is_person_alive_iff:
  "is_person_alive (JDict kvs) =
     (map_of kvs ''death_ref_index'' = None \<or> map_of kvs ''death_ref_index'' = Some (JInt (- 1)))
   \<and> (map_of kvs ''death_ref_index'' = Some (JInt 0) \<longrightarrow> \<not> is_person_alive (JDict kvs))
   \<and> is_person_alive (JDict ((''event_ref_list'', refs) # kvs)) = is_person_alive (JDict kvs)
   \<and> (\<not> is_mapping p \<longrightarrow> is_person_alive p)"
proof -
  have a: "is_person_alive (JDict kvs) =
     (map_of kvs ''death_ref_index'' = None \<or> map_of kvs ''death_ref_index'' = Some (JInt (- 1)))"
  proof (cases "map_of kvs ''death_ref_index''")
    case None
    then show ?thesis by (simp add: is_person_alive_def)
  next
    case (Some v)
    then show ?thesis by (cases v) (auto simp: is_person_alive_def)
  qed
  have b: "is_person_alive (JDict ((''event_ref_list'', refs) # kvs)) = is_person_alive (JDict kvs)"
    by (simp add: is_person_alive_def)
  have c: "\<not> is_mapping p \<longrightarrow> is_person_alive p"
    by (cases p) (simp_all add: is_person_alive_def is_mapping_def)
  from a b c show ?thesis by simp
qed

theorem is_person_alive_iff_witness:
  "is_person_alive (JDict [(''death_ref_index'', JInt (- 1))])
   \<and> is_person_alive (JDict [(''gramps_id'', JStr ''I1'')])
   \<and> \<not> is_person_alive (JDict [(''death_ref_index'', JInt 0)])
   \<and> \<not> is_person_alive (JDict [(''death_ref_index'', JInt 3)])
   \<and> is_person_alive (JStr ''I1'')"
  using is_person_alive_iff [of "[(''death_ref_index'', JInt (- 1))]" JNull JNull]
    is_person_alive_iff [of "[(''gramps_id'', JStr ''I1'')]" JNull JNull]
    is_person_alive_iff [of "[(''death_ref_index'', JInt 0)]" JNull JNull]
    is_person_alive_iff [of "[(''death_ref_index'', JInt 3)]" JNull "JStr ''I1''"]
  by (simp add: is_mapping_def)

text \<open>
  C3, as stated, fails: for a birth date of February 29 and a current year that is
  not a leap year the calculator returns no result at all.
\<close>

theorem leap_day_birthday_counterexample:
  "valid_date (Date 2000 2 29) \<and> valid_date (Date 2023 6 1)
   \<and> calculate_next_birthday (Date 2023 6 1) (Date 2000 2 29) ''Ann'' = None"
  by (simp add: calculate_next_birthday_def replace_year_def date_eval)

text \<open>
  C3, amended. For valid dates the calculator returns a result exactly when the
  birth month and day exist in the current year and the occurrence (this year's
  date if it is not before today, next year's otherwise) is a calendar date; this is
  so for every birth date other than February 29 while the current year is below
  9999. A result carries the occurrence as \<open>next_birthday\<close>, the difference of the
  ordinals as \<open>days_until\<close>, which is never negative and is 0 exactly when today has
  the month and day of the birth date, and the difference of the years as \<open>age\<close>.
\<close>

theorem calculate_next_birthday_result:
  assumes "valid_date today" and "valid_date bd"
  shows "(calculate_next_birthday today bd name \<noteq> None \<longleftrightarrow>
            valid_date (Date (year today) (month bd) (day bd)) \<and> valid_date (occurrence today bd))
         \<and> ((month bd \<noteq> 2 \<or> day bd \<noteq> 29) \<and> year today < 9999 \<longrightarrow>
              calculate_next_birthday today bd name \<noteq> None)
         \<and> (\<forall>r. calculate_next_birthday today bd name = Some r \<longrightarrow>
              person_name r = name
              \<and> birth_date r = isoformat bd
              \<and> next_birthday r = isoformat (occurrence today bd)
              \<and> occurrence today bd =
                  (if date_lt (Date (year today) (month bd) (day bd)) today
                   then Date (year today + 1) (month bd) (day bd)
                   else Date (year today) (month bd) (day bd))
              \<and> days_until r = toordinal (occurrence today bd) - toordinal today
              \<and> 0 \<le> days_until r
              \<and> (days_until r = 0 \<longleftrightarrow> month today = month bd \<and> day today = day bd)
              \<and> age r = year (occurrence today bd) - year bd)"
proof (intro conjI allI impI)
  show "calculate_next_birthday today bd name \<noteq> None \<longleftrightarrow>
          valid_date (Date (year today) (month bd) (day bd)) \<and> valid_date (occurrence today bd)"
    by (simp add: calculate_none_iff)
next
  assume h: "(month bd \<noteq> 2 \<or> day bd \<noteq> 29) \<and> year today < 9999"
  from assms(1) have y: "1 \<le> year today" by (simp add: valid_date_def)
  have "1 \<le> target_year today bd" "target_year today bd \<le> 9999"
    using y h by (simp_all add: target_year_def)
  then have "valid_date (occurrence today bd)"
    unfolding occurrence_def using assms(2) h by (intro ordinary_day_valid) simp_all
  moreover have "valid_date (Date (year today) (month bd) (day bd))"
    using assms(2) h y by (intro ordinary_day_valid) simp_all
  ultimately show "calculate_next_birthday today bd name \<noteq> None"
    using calculate_none_iff [of today bd name] by blast
next
  fix r
  assume "calculate_next_birthday today bd name = Some r"
  then have v: "valid_date (occurrence today bd)"
    and r: "r = \<lparr>person_name = name, birth_date = isoformat bd,
             next_birthday = isoformat (occurrence today bd),
             age = target_year today bd - year bd,
             days_until = toordinal (occurrence today bd) - toordinal today\<rparr>"
    using calculate_some_iff [of today bd name r] by blast+
  show "person_name r = name" "birth_date r = isoformat bd"
    "next_birthday r = isoformat (occurrence today bd)"
    "days_until r = toordinal (occurrence today bd) - toordinal today"
    by (simp_all add: r)
  show "occurrence today bd =
          (if date_lt (Date (year today) (month bd) (day bd)) today
           then Date (year today + 1) (month bd) (day bd)
           else Date (year today) (month bd) (day bd))"
    by (simp add: occurrence_def target_year_def)
  show "age r = year (occurrence today bd) - year bd"
    by (simp add: r occurrence_def)
  have "toordinal today \<le> toordinal (occurrence today bd)"
    using occurrence_not_before [of today bd] toordinal_mono [of "occurrence today bd" today]
      date_lt_trichotomy [of today "occurrence today bd"] toordinal_mono [of today "occurrence today bd"]
      v assms(1) by fastforce
  then show "0 \<le> days_until r" by (simp add: r)
  have "days_until r = 0 \<longleftrightarrow> toordinal (occurrence today bd) = toordinal today"
    by (simp add: r)
  also have "\<dots> \<longleftrightarrow> occurrence today bd = today"
    using v assms(1) by (rule toordinal_eq_iff)
  also have "\<dots> \<longleftrightarrow> month today = month bd \<and> day today = day bd"
    by (rule occurrence_is_today)
  finally show "days_until r = 0 \<longleftrightarrow> month today = month bd \<and> day today = day bd" .
qed

theorem calculate_next_birthday_result_witness:
  "valid_date (Date 2024 7 15) \<and> valid_date (Date 1990 7 10)
   \<and> calculate_next_birthday (Date 2024 7 15) (Date 1990 7 10) ''Ann'' =
       Some \<lparr>person_name = ''Ann'', birth_date = ''1990-07-10'', next_birthday = ''2025-07-10'',
             age = 35, days_until = 360\<rparr>"
proof -
  have t: "valid_date (Date 2024 7 15)" and b: "valid_date (Date 1990 7 10)"
    by (simp_all add: date_eval)
  have "calculate_next_birthday (Date 2024 7 15) (Date 1990 7 10) ''Ann'' \<noteq> None"
    using conjunct1 [OF conjunct2 [OF calculate_next_birthday_result [OF t b, of "''Ann''"]]] by simp
  then obtain r where r: "calculate_next_birthday (Date 2024 7 15) (Date 1990 7 10) ''Ann'' = Some r"
    by blast
  then have "person_name r = ''Ann''" "birth_date r = ''1990-07-10''" "next_birthday r = ''2025-07-10''"
    "age r = 35" "days_until r = 360"
    using conjunct2 [OF conjunct2 [OF calculate_next_birthday_result [OF t b, of "''Ann''"]]]
    by (simp_all add: occurrence_def target_year_def date_lt_def iso_eval ord_eval is_leap_def)
  then have "r = \<lparr>person_name = ''Ann'', birth_date = ''1990-07-10'', next_birthday = ''2025-07-10'',
             age = 35, days_until = 360\<rparr>"
    by (cases r) simp
  with r t b show ?thesis by simp
qed

text \<open>
  C10. For a birth date of February 29 the calculator returns a result exactly when
  the current year is a leap year and its February 29 is not before today. In every
  other case it returns None, also when only the following year is a leap year, and
  the main loop then appends nothing for a person with that birth date.
\<close>

theorem calculate_leap_day:
  assumes "valid_date today" and "valid_date bd" and "month bd = 2" and "day bd = 29"
  shows "(calculate_next_birthday today bd name \<noteq> None \<longleftrightarrow>
            is_leap (year today) \<and> \<not> date_lt (Date (year today) 2 29) today)
         \<and> (\<not> is_leap (year today) \<and> is_leap (year today + 1) \<longrightarrow>
              calculate_next_birthday today bd name = None)
         \<and> (calculate_next_birthday today bd name = None \<longrightarrow>
              (\<forall>env person. birthday_entry env today person = None
                 \<or> extract_birth_date env person \<noteq> Some bd))"
proof (intro conjI impI allI)
  from assms(1) have y: "1 \<le> year today" "year today \<le> 9999"
    by (simp_all add: valid_date_def)
  have v: "\<And>y. valid_date (Date y 2 29) \<longleftrightarrow> 1 \<le> y \<and> y \<le> 9999 \<and> is_leap y"
    by (auto simp: valid_date_def days_in_month_def)
  have n: "is_leap (year today) \<Longrightarrow> \<not> is_leap (year today + 1)"
    unfolding is_leap_def by presburger
  show iff: "calculate_next_birthday today bd name \<noteq> None \<longleftrightarrow>
          is_leap (year today) \<and> \<not> date_lt (Date (year today) 2 29) today"
    using calculate_none_iff [of today bd name] y n
    by (auto simp: assms(3,4) occurrence_def target_year_def v)
  assume "\<not> is_leap (year today) \<and> is_leap (year today + 1)"
  then show "calculate_next_birthday today bd name = None"
    using iff by blast
next
  fix env person
  assume "calculate_next_birthday today bd name = None"
  then have "\<And>n. calculate_next_birthday today bd n = None"
    by (simp add: calculate_none_iff)
  then show "birthday_entry env today person = None \<or> extract_birth_date env person \<noteq> Some bd"
    by (cases "extract_birth_date env person = Some bd") (simp_all add: birthday_entry_def Let_def)
qed

theorem calculate_leap_day_witness:
  "valid_date (Date 2023 3 1) \<and> valid_date (Date 2000 2 29)
   \<and> calculate_next_birthday (Date 2023 3 1) (Date 2000 2 29) ''Ann'' = None
   \<and> calculate_next_birthday (Date 2024 3 1) (Date 2000 2 29) ''Ann'' = None
   \<and> calculate_next_birthday (Date 2024 2 1) (Date 2000 2 29) ''Ann'' \<noteq> None"
proof -
  have b: "valid_date (Date 2000 2 29)" and t1: "valid_date (Date 2023 3 1)"
    and t2: "valid_date (Date 2024 3 1)" and t3: "valid_date (Date 2024 2 1)"
    by (simp_all add: date_eval)
  show ?thesis
    using b t1 calculate_leap_day [OF t1 b, of "''Ann''"] calculate_leap_day [OF t2 b, of "''Ann''"]
      calculate_leap_day [OF t3 b, of "''Ann''"]
    by (simp add: is_leap_def date_lt_def)
qed

section \<open>Properties of the classifier\<close>


lemma resolve_str: "resolve_event_handle (JStr s) \<noteq> Ok (Some h)"
  by (simp add: resolve_event_handle_def)





















section \<open>Properties of the pipeline\<close>




lemma sorted_slice_to: "sorted (map f xs) \<Longrightarrow> sorted (map f (slice_to xs n))"
  by (simp add: slice_to_def take_map [symmetric] sorted_wrt_take)

lemma length_slice_to: "0 \<le> n \<Longrightarrow> int (length (slice_to xs n)) \<le> n"
  by (simp add: slice_to_def)

lemma diagnostics_mappings:
  "diagnostics sampled ps = Ok u \<Longrightarrow> list_all is_mapping ps"
proof (induction ps arbitrary: sampled)
  case Nil
  show ?case by simp
next
  case (Cons p ps)
  from Cons.prems have m: "is_mapping p"
    by (cases p) (simp_all add: is_mapping_def)
  from Cons.prems obtain s' where "diagnostics s' ps = Ok u"
    by (auto simp: Let_def split: res.splits if_splits)
  from Cons.IH [OF this] m show ?case by simp
qed

lemma get_birthdays_cases:
  "get_birthdays env limit = []
   \<or> (\<exists>people. get_people env = Ok (JList people)
         \<and> get_birthdays env limit =
             slice_to (sort_key days_until
               (collect_birthdays env 0 (filter (has_birth_date env) people) [])) limit)"
proof (cases "get_birthdays env limit = []")
  case True
  then show ?thesis by simp
next
  case False
  then obtain all_people people u where a: "get_people env = Ok all_people"
    and t: "truthy all_people" and i: "py_iter all_people = Ok people"
    and d: "diagnostics False people = Ok u"
    and g: "get_birthdays env limit =
             slice_to (sort_key days_until
               (collect_birthdays env 0 (filter (has_birth_date env) people) [])) limit"
    by (auto simp: get_birthdays_def get_birthdays_body_def split: res.splits if_splits list.splits)
  from d have m: "list_all is_mapping people" by (rule diagnostics_mappings)
  have "all_people = JList people"
  proof (cases all_people)
    case (JList xs)
    with i show ?thesis by simp
  next
    case (JStr s)
    with t i m show ?thesis by (cases s) (auto simp: is_mapping_def)
  next
    case (JDict kvs)
    with t i m show ?thesis by (cases kvs) (auto simp: is_mapping_def)
  qed (use i in simp_all)
  with a g show ?thesis by blast
qed


section \<open>The claims about the classifier and the pipeline\<close>





text \<open>
  C6, as stated, fails: with the limit -1 the slice keeps all entries but the last,
  and the length of the result, 1 here, exceeds the limit.
\<close>

theorem get_birthdays_negative_limit_counterexample:
  "get_birthdays demo_env (- 1) =
     [\<lparr>person_name = ''Ann Lee'', birth_date = ''1990-07-10'',
       next_birthday = ''2024-07-10'', age = 34, days_until = 9\<rparr>]
   \<and> \<not> int (length (get_birthdays demo_env (- 1))) \<le> - 1"
  by code_simp

text \<open>
  C6, amended. The list \<open>get_birthdays\<close> returns is in ascending order of
  \<open>days_until\<close>; its length does not exceed a limit that is not negative; unless it
  is empty, it is the slice up to the limit of the stable sort of the collected
  entries, in which entries of equal \<open>days_until\<close> keep their collection order. The
  default limit is 50.
\<close>

theorem get_birthdays_sorted_limited:
  "sorted (map days_until (get_birthdays env limit))
   \<and> (0 \<le> limit \<longrightarrow> int (length (get_birthdays env limit)) \<le> limit)
   \<and> (get_birthdays env limit = []
       \<or> (\<exists>people collected. get_people env = Ok (JList people)
             \<and> collected = collect_birthdays env 0 (filter (has_birth_date env) people) []
             \<and> get_birthdays env limit = slice_to (sort_key days_until collected) limit
             \<and> (\<forall>k. filter (\<lambda>r. days_until r = k) (sort_key days_until collected)
                      = filter (\<lambda>r. days_until r = k) collected)))
   \<and> default_limit = 50"
proof (intro conjI impI)
  show "sorted (map days_until (get_birthdays env limit))"
    using get_birthdays_cases [of env limit]
  proof
    assume "get_birthdays env limit = []"
    then show ?thesis by simp
  next
    assume "\<exists>people. get_people env = Ok (JList people)
         \<and> get_birthdays env limit =
             slice_to (sort_key days_until
               (collect_birthdays env 0 (filter (has_birth_date env) people) [])) limit"
    then obtain people where o: "get_birthdays env limit =
             slice_to (sort_key days_until
               (collect_birthdays env 0 (filter (has_birth_date env) people) [])) limit"
      by blast
    show ?thesis
      unfolding o by (rule sorted_slice_to) (rule sorted_sort_key)
  qed
next
  assume "0 \<le> limit"
  then show "int (length (get_birthdays env limit)) \<le> limit"
    using get_birthdays_cases [of env limit] length_slice_to [of limit] by auto
next
  show "get_birthdays env limit = []
       \<or> (\<exists>people collected. get_people env = Ok (JList people)
             \<and> collected = collect_birthdays env 0 (filter (has_birth_date env) people) []
             \<and> get_birthdays env limit = slice_to (sort_key days_until collected) limit
             \<and> (\<forall>k. filter (\<lambda>r. days_until r = k) (sort_key days_until collected)
                      = filter (\<lambda>r. days_until r = k) collected))"
    using get_birthdays_cases [of env limit] by (auto simp: sort_key_stable)
next
  show "default_limit = 50" by (simp add: default_limit_def)
qed

theorem get_birthdays_sorted_limited_witness:
  "map days_until (get_birthdays demo_env default_limit) = [9, 244]
   \<and> map person_name (collect_birthdays demo_env 0 [bob, cyd, ann] []) = [''Bob Ray'', ''Ann Lee'']
   \<and> sorted (map days_until (get_birthdays demo_env default_limit))
   \<and> int (length (get_birthdays demo_env 1)) \<le> 1
   \<and> map person_name (get_birthdays demo_env 1) = [''Ann Lee'']"
proof -
  have a: "map days_until (get_birthdays demo_env default_limit) = [9, 244]" by code_simp
  have b: "map person_name (collect_birthdays demo_env 0 [bob, cyd, ann] []) = [''Bob Ray'', ''Ann Lee'']"
    by code_simp
  have c: "map person_name (get_birthdays demo_env 1) = [''Ann Lee'']" by code_simp
  from a b c get_birthdays_sorted_limited [of demo_env default_limit]
    get_birthdays_sorted_limited [of demo_env 1]
  show ?thesis by simp
qed

text \<open>
  C7. When the request for the person list raises, whatever the exception,
  \<open>get_birthdays\<close> returns the empty list and raises nothing; so it does when the
  response is null or an empty list. No exception of its body leaves it.
\<close>

theorem get_birthdays_fail_soft:
  "(get_people env = Raise e \<longrightarrow>
      get_birthdays_body env limit = Ok [] \<and> get_birthdays env limit = [])
   \<and> (get_people env = Ok v \<and> \<not> truthy v \<longrightarrow>
      get_birthdays_body env limit = Ok [] \<and> get_birthdays env limit = [])
   \<and> (\<forall>x. get_birthdays_body env limit = Raise x \<longrightarrow> get_birthdays env limit = [])"
  by (simp add: get_birthdays_def get_birthdays_body_def)

theorem get_birthdays_fail_soft_witness:
  "get_people down_env = Raise RequestException \<and> get_birthdays down_env 50 = []
   \<and> get_people null_env = Ok JNull \<and> get_birthdays null_env 50 = []
   \<and> get_people empty_env = Ok (JList []) \<and> get_birthdays empty_env 50 = []"
proof -
  have d: "get_people down_env = Raise RequestException"
    and n: "get_people null_env = Ok JNull"
    and e: "get_people empty_env = Ok (JList [])"
    by (simp_all add: get_people_def down_env_def null_env_def empty_env_def)
  from d n e get_birthdays_fail_soft [of down_env RequestException 50 JNull]
    get_birthdays_fail_soft [of null_env RequestException 50 JNull]
    get_birthdays_fail_soft [of empty_env RequestException 50 "JList []"]
  show ?thesis by simp
qed

end
